theory Spec2Isabelle
  imports Main "HOL-Library.AList" "HOL-Library.Word"
begin

section \<open>URL shortener: short codes, hot cache, resolver and registry\<close>

text \<open>
  The development embeds the server core of the URL shortener:
  \<^item> \<^verbatim>\<open>server/utils/shortCode.js\<close>: the code generator;
  \<^item> \<^verbatim>\<open>server/utils/cache.js\<close>: the class \<^verbatim>\<open>UrlCache\<close>;
  \<^item> \<^verbatim>\<open>server/models/Url.js\<close>: the document schema and its methods;
  \<^item> \<^verbatim>\<open>server/services/urlService.js\<close>, \<^verbatim>\<open>cleanupService.js\<close>: the service;
  \<^item> \<^verbatim>\<open>server/controllers/urlController.js\<close>: the redirect handler.

  Conventions. Instants (\<^verbatim>\<open>Date\<close>, \<^verbatim>\<open>Date.now()\<close>) are milliseconds since the epoch,
  an \<open>int\<close>; every operation receives the instant \<open>now\<close> at which it runs and uses it
  for each clock read it makes. Numbers are integers, exact as long as the source's
  doubles are (below \<open>2 ^ 53\<close>). \<^verbatim>\<open>null\<close> and \<^verbatim>\<open>undefined\<close> are \<open>None\<close>. A thrown
  exception is \<open>Inl\<close>; since a throw does not undo earlier mutations, operations on
  the shared state return the state next to the outcome. The collection of documents is
  a list in natural order, \<^verbatim>\<open>findOne\<close> returning the first match. The JavaScript \<^verbatim>\<open>Map\<close>
  of the cache is an association list in insertion order.
\<close>

subsection \<open>Configuration\<close>

record config =
  shortCode_length :: nat
  shortCode_maxRetries :: nat
  cache_maxSize :: nat
  cache_ttl :: int
  serverUrl :: string

definition default_config :: config where
  "default_config =
     \<lparr>shortCode_length = 6, shortCode_maxRetries = 5,
      cache_maxSize = 1000, cache_ttl = 60 * 60 * 1000,
      serverUrl = ''http://localhost:5000''\<rparr>"

subsection \<open>Errors\<close>

text \<open>
  \<^verbatim>\<open>AppError(message, statusCode, code)\<close> with the factories of \<^verbatim>\<open>errors\<close>. The class has no
  factory \<^verbatim>\<open>gone\<close>, so the call \<^verbatim>\<open>AppError.gone(...)\<close> of the controller is a \<^verbatim>\<open>TypeError\<close>.
  \<open>DuplicateKey\<close> is the store rejecting a second document with the same unique
  \<^verbatim>\<open>shortCode\<close>, \<open>ValidationError\<close> the store library rejecting, in \<^verbatim>\<open>save\<close>, a document
  one of whose paths holds a value it cannot cast.
\<close>

datatype error =
    AppError (err_message: string) (err_statusCode: nat) (err_code: string)
  | TypeError string
  | DuplicateKey string
  | ValidationError string


definition notFound :: "string \<Rightarrow> error" where
  "notFound message = AppError message 404 ''NOT_FOUND''"


subsection \<open>Short codes\<close>

definition ALPHABET :: string where
  "ALPHABET = ''abcdefghijklmnopqrstuvwxyzABCDEFGHIJKLMNOPQRSTUVWXYZ0123456789''"

text \<open>
  \<^verbatim>\<open>crypto.randomBytes\<close> is an unbounded supply of bytes: \<open>rnd i\<close> is the \<open>i\<close>-th byte the
  process draws, and \<open>pos\<close> counts the bytes drawn so far.
\<close>

type_synonym random_source = "nat \<Rightarrow> 8 word"

definition randomBytes :: "random_source \<Rightarrow> nat \<Rightarrow> nat \<Rightarrow> 8 word list" where
  "randomBytes rnd pos n = map (\<lambda>i. rnd (pos + i)) [0..<n]"

definition generateShortCode :: "random_source \<Rightarrow> nat \<Rightarrow> nat \<Rightarrow> string \<times> nat" where
  "generateShortCode rnd pos len =
     (let bytes = randomBytes rnd pos len
      in (map (\<lambda>i. ALPHABET ! (unat (bytes ! i) mod length ALPHABET)) [0..<len], pos + len))"

text \<open>
  The retry loop of \<^verbatim>\<open>generateUniqueShortCode\<close>, by the number of iterations left. The
  result carries, besides the code and the new position of the byte supply, the codes
  handed to \<^verbatim>\<open>checkExists\<close>, in call order.
\<close>

fun retry_loop ::
  "config \<Rightarrow> (string \<Rightarrow> bool) \<Rightarrow> random_source \<Rightarrow> nat \<Rightarrow> nat \<Rightarrow> string list
     \<Rightarrow> string \<times> nat \<times> string list" where
  "retry_loop cfg checkExists rnd pos 0 checked =
     (let (code, pos') = generateShortCode rnd pos (shortCode_length cfg + 2)
      in (code, pos', checked))"
| "retry_loop cfg checkExists rnd pos (Suc k) checked =
     (let (code, pos') = generateShortCode rnd pos (shortCode_length cfg);
          exists = checkExists code
      in if \<not> exists then (code, pos', checked @ [code])
         else retry_loop cfg checkExists rnd pos' k (checked @ [code]))"

definition generateUniqueShortCode ::
  "config \<Rightarrow> (string \<Rightarrow> bool) \<Rightarrow> random_source \<Rightarrow> nat \<Rightarrow> string \<times> nat \<times> string list" where
  "generateUniqueShortCode cfg checkExists rnd pos =
     retry_loop cfg checkExists rnd pos (shortCode_maxRetries cfg) []"



subsection \<open>UrlCache\<close>

record 'd entry =
  data :: 'd
  entry_expiresAt :: int
  hits :: nat
  lastAccess :: int

record 'd UrlCache =
  cache :: "(string \<times> 'd entry) list"
  maxSize :: nat
  ttl :: int

definition new_UrlCache :: "config \<Rightarrow> 'd UrlCache" where
  "new_UrlCache cfg = \<lparr>cache = [], maxSize = cache_maxSize cfg, ttl = cache_ttl cfg\<rparr>"

definition get :: "string \<Rightarrow> int \<Rightarrow> 'd UrlCache \<Rightarrow> 'd option \<times> 'd UrlCache" where
  "get shortCode now c =
     (case map_of (cache c) shortCode of
        None \<Rightarrow> (None, c)
      | Some entry \<Rightarrow>
          if now > entry_expiresAt entry
          then (None, c\<lparr>cache := AList.delete shortCode (cache c)\<rparr>)
          else (Some (data entry),
                c\<lparr>cache := AList.update shortCode
                              (entry\<lparr>hits := hits entry + 1, lastAccess := now\<rparr>) (cache c)\<rparr>))"

text \<open>
  The scan of \<^verbatim>\<open>evictLeastUsed\<close>: \<open>acc\<close> is the pair of \<^verbatim>\<open>oldestKey\<close> and \<^verbatim>\<open>oldest\<close>,
  \<open>None\<close> while both are \<^verbatim>\<open>null\<close>. The final test \<^verbatim>\<open>if (oldestKey)\<close> is a truthiness test,
  which the empty string fails.
\<close>

fun oldest_scan ::
  "(string \<times> 'd entry) list \<Rightarrow> (string \<times> 'd entry) option \<Rightarrow> (string \<times> 'd entry) option" where
  "oldest_scan [] acc = acc"
| "oldest_scan ((key, entry) # rest) acc =
     (case acc of
        None \<Rightarrow> oldest_scan rest (Some (key, entry))
      | Some (oldestKey, oldest) \<Rightarrow>
          if lastAccess entry < lastAccess oldest
          then oldest_scan rest (Some (key, entry))
          else oldest_scan rest (Some (oldestKey, oldest)))"

definition evictLeastUsed :: "'d UrlCache \<Rightarrow> 'd UrlCache" where
  "evictLeastUsed c =
     (case oldest_scan (cache c) None of
        None \<Rightarrow> c
      | Some (oldestKey, oldest) \<Rightarrow>
          if oldestKey \<noteq> [] then c\<lparr>cache := AList.delete oldestKey (cache c)\<rparr> else c)"

definition set_cache :: "string \<Rightarrow> 'd \<Rightarrow> int \<Rightarrow> 'd UrlCache \<Rightarrow> 'd UrlCache" where
  "set_cache shortCode urlData now c =
     (let c1 = (if length (cache c) \<ge> maxSize c then evictLeastUsed c else c)
      in c1\<lparr>cache := AList.update shortCode
                        \<lparr>data = urlData, entry_expiresAt = now + ttl c1,
                         hits = 1, lastAccess = now\<rparr> (cache c1)\<rparr>)"

definition invalidate :: "string \<Rightarrow> 'd UrlCache \<Rightarrow> 'd UrlCache" where
  "invalidate shortCode c = c\<lparr>cache := AList.delete shortCode (cache c)\<rparr>"

definition cleanup :: "int \<Rightarrow> 'd UrlCache \<Rightarrow> 'd UrlCache" where
  "cleanup now c = c\<lparr>cache := filter (\<lambda>(key, entry). \<not> now > entry_expiresAt entry) (cache c)\<rparr>"

definition clear :: "'d UrlCache \<Rightarrow> 'd UrlCache" where
  "clear c = c\<lparr>cache := []\<rparr>"

subsection \<open>The Url document\<close>

text \<open>
  The schema of \<^verbatim>\<open>models/Url.js\<close>, with the identifier \<^verbatim>\<open>_id\<close> and \<^verbatim>\<open>createdAt\<close>.
  \<^verbatim>\<open>userId\<close> is an ObjectId (a number here). Setters and validators that the store
  library runs on its own (\<^verbatim>\<open>trim\<close>, \<^verbatim>\<open>required\<close>, the maintenance of \<^verbatim>\<open>updatedAt\<close>) are no
  code of this repository and are not part of the model; the one exception is the
  rejection of an invalid date, which \<^verbatim>\<open>expiresAt\<close> cannot hold.
\<close>

record click =
  timestamp :: int
  ip :: "string option"
  userAgent :: "string option"
  referer :: "string option"

record url =
  doc_id :: nat
  originalUrl :: string
  shortCode :: string
  customSlug :: "string option"
  userId :: "nat option"
  guestId :: "string option"
  clicks :: nat
  clickHistory :: "click list"
  isActive :: bool
  expiresAt :: "int option"
  qrCode :: "string option"
  createdAt :: int

text \<open>
  The argument of \<^verbatim>\<open>recordClick\<close>: the method reads the properties \<^verbatim>\<open>ip\<close>, \<^verbatim>\<open>userAgent\<close> and
  \<^verbatim>\<open>referer\<close>; the controller builds the object with a property \<^verbatim>\<open>referrer\<close>.
\<close>

record clickData =
  cd_ip :: "string option"
  cd_userAgent :: "string option"
  cd_referer :: "string option"
  cd_referrer :: "string option"

definition url_recordClick :: "clickData \<Rightarrow> int \<Rightarrow> url \<Rightarrow> url" where
  "url_recordClick cd now u =
     (let u1 = u\<lparr>clicks := clicks u + 1\<rparr>;
          u2 = (if length (clickHistory u1) \<ge> 100
                then u1\<lparr>clickHistory := tl (clickHistory u1)\<rparr> else u1)
      in u2\<lparr>clickHistory := clickHistory u2 @
               [\<lparr>timestamp = now, ip = cd_ip cd, userAgent = cd_userAgent cd,
                 referer = cd_referer cd\<rparr>]\<rparr>)"

subsection \<open>The store and the process state\<close>

record urlData =
  ud_originalUrl :: string
  ud_shortCode :: string
  ud_id :: nat

record world =
  urls :: "url list"
  urlCache :: "urlData UrlCache"
  next_id :: nat

definition findByShortCode :: "string \<Rightarrow> url list \<Rightarrow> url option" where
  "findByShortCode sc docs = find (\<lambda>u. shortCode u = sc \<and> isActive u) docs"

definition findOne_shortCode :: "string \<Rightarrow> url list \<Rightarrow> url option" where
  "findOne_shortCode sc docs = find (\<lambda>u. shortCode u = sc) docs"

definition findOne_shortCode_userId :: "string \<Rightarrow> nat \<Rightarrow> url list \<Rightarrow> url option" where
  "findOne_shortCode_userId sc uid docs =
     find (\<lambda>u. shortCode u = sc \<and> userId u = Some uid) docs"

definition findOne_shortCode_guestId :: "string \<Rightarrow> string \<Rightarrow> url list \<Rightarrow> url option" where
  "findOne_shortCode_guestId sc gid docs =
     find (\<lambda>u. shortCode u = sc \<and> guestId u = Some gid) docs"


text \<open>
  \<^verbatim>\<open>save\<close> of a document that was read from the collection writes it back under its
  \<^verbatim>\<open>_id\<close>; \<^verbatim>\<open>save\<close> of a new document inserts it, unless the unique index on \<^verbatim>\<open>shortCode\<close>
  rejects it; \<^verbatim>\<open>findOneAndDelete\<close> removes the document it found.
\<close>

definition save :: "url \<Rightarrow> url list \<Rightarrow> url list" where
  "save u docs = map (\<lambda>d. if doc_id d = doc_id u then u else d) docs"


definition remove_doc :: "url \<Rightarrow> url list \<Rightarrow> url list" where
  "remove_doc u docs = filter (\<lambda>d. doc_id d \<noteq> doc_id u) docs"

subsection \<open>UrlService\<close>




record urlResponse =
  r_id :: nat
  r_originalUrl :: string
  r_shortCode :: string
  r_shortUrl :: string
  r_clicks :: nat
  r_isActive :: bool
  r_createdAt :: int
  r_expiresAt :: "int option"

definition formatUrlResponse :: "config \<Rightarrow> url \<Rightarrow> urlResponse" where
  "formatUrlResponse cfg u =
     \<lparr>r_id = doc_id u, r_originalUrl = originalUrl u, r_shortCode = shortCode u,
      r_shortUrl = serverUrl cfg @ ''/'' @ shortCode u, r_clicks = clicks u,
      r_isActive = isActive u, r_createdAt = createdAt u, r_expiresAt = expiresAt u\<rparr>"



text \<open>
  Truthiness of an optional string: \<^verbatim>\<open>null\<close>, \<^verbatim>\<open>undefined\<close> and \<^verbatim>\<open>''\<close> are falsy;
  \<open>or_null s\<close> is \<^verbatim>\<open>s || null\<close>.
\<close>

definition or_null :: "string option \<Rightarrow> string option" where
  "or_null s = (case s of None \<Rightarrow> None | Some v \<Rightarrow> if v \<noteq> [] then Some v else None)"

definition truthy :: "string option \<Rightarrow> bool" where
  "truthy s \<longleftrightarrow> or_null s \<noteq> None"

subsection \<open>Dates and the platform\<close>













definition getByShortCode :: "string \<Rightarrow> int \<Rightarrow> world \<Rightarrow> (error + urlData) \<times> world" where
  "getByShortCode sc now w =
     (let (urlData, c) = get sc now (urlCache w);
          w1 = w\<lparr>urlCache := c\<rparr>
      in case urlData of
           Some d \<Rightarrow> (Inr d, w1)
         | None \<Rightarrow>
             (case findByShortCode sc (urls w1) of
                None \<Rightarrow> (Inl (notFound ''URL not found''), w1)
              | Some u \<Rightarrow>
                  if (case expiresAt u of None \<Rightarrow> False | Some e \<Rightarrow> e < now)
                  then (Inl (notFound ''URL has expired''), w1)
                  else
                    (let d = \<lparr>ud_originalUrl = originalUrl u, ud_shortCode = shortCode u,
                              ud_id = doc_id u\<rparr>
                     in (Inr d, w1\<lparr>urlCache := set_cache sc d now c\<rparr>))))"

definition recordClick :: "string \<Rightarrow> clickData \<Rightarrow> int \<Rightarrow> world \<Rightarrow> (error + unit) \<times> world" where
  "recordClick sc cd now w =
     (case findOne_shortCode sc (urls w) of
        None \<Rightarrow> (Inr (), w)
      | Some u \<Rightarrow> (Inr (), w\<lparr>urls := save (url_recordClick cd now u) (urls w)\<rparr>))"

text \<open>
  The argument \<^verbatim>\<open>updates\<close> of \<^verbatim>\<open>updateUrl\<close>, as the list of its own properties in key order.
  \<open>Other k\<close> is a property whose key is none of the three allowed ones. The values of
  \<^verbatim>\<open>originalUrl\<close> and \<^verbatim>\<open>isActive\<close> are values of the field's type; the value of
  \<^verbatim>\<open>expiresAt\<close> is \<open>None\<close> when it is falsy (\<^verbatim>\<open>null\<close>, \<^verbatim>\<open>undefined\<close>, empty).
\<close>

datatype update_field =
    OriginalUrl string
  | IsActive bool
  | ExpiresAt "int option"
  | Other string

definition key_of :: "update_field \<Rightarrow> string" where
  "key_of f =
     (case f of OriginalUrl _ \<Rightarrow> ''originalUrl'' | IsActive _ \<Rightarrow> ''isActive''
      | ExpiresAt _ \<Rightarrow> ''expiresAt'' | Other k \<Rightarrow> k)"

definition allowedUpdates :: "string list" where
  "allowedUpdates = [''originalUrl'', ''isActive'', ''expiresAt'']"

definition apply_update :: "url \<Rightarrow> update_field \<Rightarrow> url" where
  "apply_update u f =
     (if key_of f \<in> set allowedUpdates
      then (case f of
              OriginalUrl v \<Rightarrow> u\<lparr>originalUrl := v\<rparr>
            | IsActive v \<Rightarrow> u\<lparr>isActive := v\<rparr>
            | ExpiresAt v \<Rightarrow> (if v = None then u\<lparr>expiresAt := None\<rparr> else u\<lparr>expiresAt := v\<rparr>)
            | Other k \<Rightarrow> u)
      else u)"

definition updateUrl ::
  "config \<Rightarrow> string \<Rightarrow> nat \<Rightarrow> update_field list \<Rightarrow> world \<Rightarrow> (error + urlResponse) \<times> world" where
  "updateUrl cfg sc uid updates w =
     (case findOne_shortCode_userId sc uid (urls w) of
        None \<Rightarrow> (Inl (notFound ''URL not found or access denied''), w)
      | Some u0 \<Rightarrow>
          (let u = foldl apply_update u0 updates;
               w1 = w\<lparr>urls := save u (urls w)\<rparr>;
               w2 = w1\<lparr>urlCache := invalidate (shortCode u) (urlCache w1)\<rparr>
           in (Inr (formatUrlResponse cfg u), w2)))"

definition deleteUrl :: "string \<Rightarrow> nat \<Rightarrow> world \<Rightarrow> (error + string) \<times> world" where
  "deleteUrl sc uid w =
     (case findOne_shortCode_userId sc uid (urls w) of
        None \<Rightarrow> (Inl (notFound ''URL not found or access denied''), w)
      | Some u \<Rightarrow>
          (let w1 = w\<lparr>urls := remove_doc u (urls w)\<rparr>;
               w2 = w1\<lparr>urlCache := invalidate (shortCode u) (urlCache w1)\<rparr>
           in (Inr ''URL deleted successfully'', w2)))"

definition deleteGuestUrl :: "string \<Rightarrow> string \<Rightarrow> world \<Rightarrow> (error + string) \<times> world" where
  "deleteGuestUrl sc gid w =
     (case findOne_shortCode_guestId sc gid (urls w) of
        None \<Rightarrow> (Inl (notFound ''URL not found or access denied''), w)
      | Some u \<Rightarrow>
          (let w1 = w\<lparr>urls := remove_doc u (urls w)\<rparr>;
               w2 = w1\<lparr>urlCache := invalidate (shortCode u) (urlCache w1)\<rparr>
           in (Inr ''URL deleted successfully'', w2)))"

subsection \<open>The redirect handler\<close>

text \<open>
  \<^verbatim>\<open>redirectUrl\<close> of the controller. The object that \<^verbatim>\<open>getByShortCode\<close> returns has the
  properties \<^verbatim>\<open>originalUrl\<close>, \<^verbatim>\<open>shortCode\<close> and \<^verbatim>\<open>id\<close> only, so reading \<^verbatim>\<open>url.expiresAt\<close>
  gives \<^verbatim>\<open>undefined\<close>; the object is never falsy, so the test \<^verbatim>\<open>if (!url)\<close> has no branch
  here. The click is recorded after the lookup; its outcome is dropped
  (\<^verbatim>\<open>.catch(console.error)\<close>).
\<close>

record request =
  param_shortCode :: string
  header_user_agent :: "string option"
  header_referer :: "string option"
  header_referrer :: "string option"
  req_ip :: "string option"

datatype response = Redirect nat string

definition urlData_expiresAt :: "urlData \<Rightarrow> int option" where
  "urlData_expiresAt d = None"

definition redirectUrl :: "request \<Rightarrow> int \<Rightarrow> world \<Rightarrow> (error + response) \<times> world" where
  "redirectUrl req now w =
     (case getByShortCode (param_shortCode req) now w of
        (Inl e, w1) \<Rightarrow> (Inl e, w1)
      | (Inr d, w1) \<Rightarrow>
          if (case urlData_expiresAt d of None \<Rightarrow> False | Some e \<Rightarrow> now > e)
          then (Inl (TypeError ''AppError.gone is not a function''), w1)
          else
            (let cd = \<lparr>cd_ip = req_ip req, cd_userAgent = header_user_agent req,
                       cd_referer = None,
                       cd_referrer = (if truthy (header_referer req) then header_referer req
                                      else header_referrer req)\<rparr>;
                 w2 = snd (recordClick (param_shortCode req) cd now w1)
             in (Inr (Redirect 301 (ud_originalUrl d)), w2)))"

subsection \<open>Notions used in the statements\<close>

text \<open>
  \<open>first_min pre r post\<close>: in the entry sequence \<open>pre @ r # post\<close>, \<open>r\<close> is the first entry
  whose \<open>lastAccess\<close> is least. \<open>set_all\<close> performs a sequence of \<^verbatim>\<open>set\<close> calls, each with
  its code, its data and its instant. \<open>cache_ok\<close> is the invariant of a cache with room
  for at least one entry whose keys are short codes, hence non-empty.
\<close>

definition first_min :: "(string \<times> 'd entry) list \<Rightarrow> (string \<times> 'd entry) \<Rightarrow> (string \<times> 'd entry) list \<Rightarrow> bool" where
  "first_min pre r post \<longleftrightarrow>
     (\<forall>x \<in> set pre. lastAccess (snd r) < lastAccess (snd x))
   \<and> (\<forall>x \<in> set post. lastAccess (snd r) \<le> lastAccess (snd x))"

fun set_all :: "(string \<times> 'd \<times> int) list \<Rightarrow> 'd UrlCache \<Rightarrow> 'd UrlCache" where
  "set_all [] c = c"
| "set_all ((code, d, t) # rest) c = set_all rest (set_cache code d t c)"

definition cache_ok :: "'d UrlCache \<Rightarrow> bool" where
  "cache_ok c \<longleftrightarrow>
     distinct (map fst (cache c)) \<and> (\<forall>x \<in> set (cache c). fst x \<noteq> [])
     \<and> length (cache c) \<le> maxSize c \<and> 0 < maxSize c"

text \<open>
  \<open>attempt cfg rnd pos i\<close> is the code that iteration \<open>i\<close> of the retry loop draws when
  the loop starts at position \<open>pos\<close> of the byte supply, and \<open>fallback cfg rnd pos\<close> the
  longer code drawn after \<^verbatim>\<open>maxRetries\<close> iterations.
\<close>

definition attempt :: "config \<Rightarrow> random_source \<Rightarrow> nat \<Rightarrow> nat \<Rightarrow> string" where
  "attempt cfg rnd pos i =
     fst (generateShortCode rnd (pos + i * shortCode_length cfg) (shortCode_length cfg))"

definition fallback :: "config \<Rightarrow> random_source \<Rightarrow> nat \<Rightarrow> string" where
  "fallback cfg rnd pos =
     fst (generateShortCode rnd (pos + shortCode_maxRetries cfg * shortCode_length cfg)
            (shortCode_length cfg + 2))"

text \<open>
  \<open>same_immutable u u'\<close>: the documents \<open>u\<close> and \<open>u'\<close> agree on every field other than
  \<^verbatim>\<open>originalUrl\<close>, \<^verbatim>\<open>isActive\<close> and \<^verbatim>\<open>expiresAt\<close>.
\<close>

definition same_immutable :: "url \<Rightarrow> url \<Rightarrow> bool" where
  "same_immutable u u' \<longleftrightarrow>
     doc_id u' = doc_id u \<and> shortCode u' = shortCode u \<and> customSlug u' = customSlug u
     \<and> userId u' = userId u \<and> guestId u' = guestId u \<and> clicks u' = clicks u
     \<and> clickHistory u' = clickHistory u \<and> qrCode u' = qrCode u \<and> createdAt u' = createdAt u"

subsection \<open>Example data\<close>

text \<open>
  A byte supply, a parser that takes the protocol to be the text up to the first colon,
  a document owned by user 7 that expires at instant 1000, and a state holding it.
\<close>

definition example_rnd :: random_source where
  "example_rnd = (\<lambda>i. of_nat i)"


definition example_url :: url where
  "example_url =
     \<lparr>doc_id = 1, originalUrl = ''https://example.com'', shortCode = ''promo1'',
      customSlug = Some ''promo1'', userId = Some 7, guestId = None, clicks = 0,
      clickHistory = [], isActive = True, expiresAt = Some 1000, qrCode = None,
      createdAt = 0\<rparr>"

definition example_world :: world where
  "example_world =
     \<lparr>urls = [example_url], urlCache = new_UrlCache default_config, next_id = 2\<rparr>"

definition example_data :: urlData where
  "example_data =
     \<lparr>ud_originalUrl = ''https://example.com'', ud_shortCode = ''promo1'', ud_id = 1\<rparr>"

definition example_request :: request where
  "example_request =
     \<lparr>param_shortCode = ''promo1'', header_user_agent = Some ''agent'',
      header_referer = None, header_referrer = None, req_ip = Some ''10.0.0.1''\<rparr>"

definition example_cache :: "urlData UrlCache" where
  "example_cache = set_cache ''promo1'' example_data 1000 (new_UrlCache default_config)"

definition example_entry :: "urlData entry" where
  "example_entry =
     \<lparr>data = example_data, entry_expiresAt = 3601000, hits = 1, lastAccess = 1000\<rparr>"

definition example_inserts :: "(string \<times> urlData \<times> int) list" where
  "example_inserts =
     [(''aaaaaa'', example_data, 10), (''bbbbbb'', example_data, 20), (''cccccc'', example_data, 30)]"

definition example_full_cache :: "urlData UrlCache" where
  "example_full_cache =
     \<lparr>cache = [(''aaaaaa'', \<lparr>data = example_data, entry_expiresAt = 1010, hits = 1, lastAccess = 40\<rparr>),
               (''bbbbbb'', \<lparr>data = example_data, entry_expiresAt = 1020, hits = 9, lastAccess = 20\<rparr>)],
      maxSize = 2, ttl = 1000\<rparr>"

definition example_taken :: "string list" where
  "example_taken = [''abcdef'', ''ghijkl'', ''mnopqr'', ''stuvwx'', ''yzABCD'', ''EFGHIJKL'']"

definition example_click :: click where
  "example_click = \<lparr>timestamp = 1, ip = None, userAgent = None, referer = None\<rparr>"

definition example_clickData :: clickData where
  "example_clickData =
     \<lparr>cd_ip = Some ''10.0.0.1'', cd_userAgent = Some ''agent'', cd_referer = None,
      cd_referrer = None\<rparr>"

definition example_cached_world :: world where
  "example_cached_world = example_world\<lparr>urlCache := example_cache\<rparr>"

definition example_guest_url :: url where
  "example_guest_url =
     \<lparr>doc_id = 2, originalUrl = ''https://guest.example'', shortCode = ''guest1'',
      customSlug = None, userId = None, guestId = Some ''guest_00ff'', clicks = 3,
      clickHistory = [example_click], isActive = True, expiresAt = Some 9000, qrCode = None,
      createdAt = 10\<rparr>"

definition example_two_world :: world where
  "example_two_world =
     \<lparr>urls = [example_url, example_guest_url], urlCache = new_UrlCache default_config,
      next_id = 3\<rparr>"








text \<open>
  The kind of an error is what a handler can switch on: the \<^verbatim>\<open>code\<close> of an \<^verbatim>\<open>AppError\<close>, the
  class name otherwise.
\<close>

fun kind_of :: "error \<Rightarrow> string" where
  "kind_of (AppError message statusCode code) = code"
| "kind_of (TypeError message) = ''TypeError''"
| "kind_of (DuplicateKey key) = ''MongoServerError''"
| "kind_of (ValidationError path) = ''ValidationError''"

section \<open>Properties\<close>

subsection \<open>UrlCache: lookup and expiry\<close>

lemma ttl_evictLeastUsed: "ttl (evictLeastUsed c) = ttl c"
  by (simp add: evictLeastUsed_def split: option.splits prod.splits)

lemma map_of_set_cache:
  "map_of (cache (set_cache code d t0 c)) code =
     Some \<lparr>data = d, entry_expiresAt = t0 + ttl c, hits = 1, lastAccess = t0\<rparr>"
  by (simp add: set_cache_def Let_def ttl_evictLeastUsed update_conv')

lemma get_absent: "map_of (cache c) code = None \<Longrightarrow> get code t c = (None, c)"
  by (simp add: get_def)

lemma map_of_invalidate: "map_of (cache (invalidate code c)) code = None"
  by (simp add: invalidate_def delete_conv')

lemma get_entry:
  assumes "map_of (cache c) code = Some e"
  shows "(now > entry_expiresAt e \<longrightarrow>
           fst (get code now c) = None
           \<and> snd (get code now c) = c\<lparr>cache := AList.delete code (cache c)\<rparr>
           \<and> map_of (cache (snd (get code now c))) code = None)
      \<and> (now \<le> entry_expiresAt e \<longrightarrow>
           fst (get code now c) = Some (data e)
           \<and> map_of (cache (snd (get code now c))) code =
               Some (e\<lparr>hits := hits e + 1, lastAccess := now\<rparr>))"
  using assms by (simp add: get_def update_conv' delete_conv')

text \<open>
  C6. An entry stored by \<^verbatim>\<open>set\<close> at instant \<open>t0\<close> in a cache with time-to-live \<open>ttl\<close>
  expires at \<open>t0 + ttl\<close>, with hit count 1 and last access \<open>t0\<close>. A \<^verbatim>\<open>get\<close> for its code
  at an instant strictly later than \<open>t0 + ttl\<close> returns nothing and removes the entry,
  with no call of \<^verbatim>\<open>cleanup\<close>; a \<^verbatim>\<open>get\<close> at an instant up to \<open>t0 + ttl\<close> returns the
  cached data, makes the hit count 2 and sets the last access to that instant. In
  general, for an entry \<open>e\<close> of a cache, a \<^verbatim>\<open>get\<close> strictly after its expiry returns
  nothing and removes it, and a \<^verbatim>\<open>get\<close> up to its expiry returns its data, adds one to its
  hit count and sets its last access to the instant of the call.
\<close>

theorem get_respects_ttl:
  "map_of (cache (set_cache code d t0 c)) code =
     Some \<lparr>data = d, entry_expiresAt = t0 + ttl c, hits = 1, lastAccess = t0\<rparr>
   \<and> (now > t0 + ttl c \<longrightarrow>
        fst (get code now (set_cache code d t0 c)) = None
      \<and> map_of (cache (snd (get code now (set_cache code d t0 c)))) code = None)
   \<and> (now \<le> t0 + ttl c \<longrightarrow>
        fst (get code now (set_cache code d t0 c)) = Some d
      \<and> map_of (cache (snd (get code now (set_cache code d t0 c)))) code =
          Some \<lparr>data = d, entry_expiresAt = t0 + ttl c, hits = 2, lastAccess = now\<rparr>)
   \<and> (map_of (cache c') code = Some e \<longrightarrow>
        (now > entry_expiresAt e \<longrightarrow>
           fst (get code now c') = None
           \<and> snd (get code now c') = c'\<lparr>cache := AList.delete code (cache c')\<rparr>
           \<and> map_of (cache (snd (get code now c'))) code = None)
      \<and> (now \<le> entry_expiresAt e \<longrightarrow>
           fst (get code now c') = Some (data e)
           \<and> map_of (cache (snd (get code now c'))) code =
               Some (e\<lparr>hits := hits e + 1, lastAccess := now\<rparr>)))"
proof -
  have stored: "map_of (cache (set_cache code d t0 c)) code =
     Some \<lparr>data = d, entry_expiresAt = t0 + ttl c, hits = 1, lastAccess = t0\<rparr>"
    by (rule map_of_set_cache)
  have late: "fst (get code now (set_cache code d t0 c)) = None
      \<and> map_of (cache (snd (get code now (set_cache code d t0 c)))) code = None"
    if "now > t0 + ttl c"
    using get_entry [OF stored, of now] that by (simp add: delete_conv')
  have in_time: "fst (get code now (set_cache code d t0 c)) = Some d
      \<and> map_of (cache (snd (get code now (set_cache code d t0 c)))) code =
          Some \<lparr>data = d, entry_expiresAt = t0 + ttl c, hits = 2, lastAccess = now\<rparr>"
    if "now \<le> t0 + ttl c"
    using get_entry [OF stored, of now] that by simp
  from stored late in_time get_entry [of c' code e now] show ?thesis by blast
qed

theorem get_respects_ttl_witness:
  "ttl (new_UrlCache default_config :: urlData UrlCache) = 3600000
   \<and> map_of (cache example_cache) ''promo1'' = Some example_entry
   \<and> ((3601001::int) > 1000 + 3600000
      \<and> fst (get ''promo1'' 3601001 example_cache) = None
      \<and> map_of (cache (snd (get ''promo1'' 3601001 example_cache))) ''promo1'' = None)
   \<and> ((3601000::int) \<le> 1000 + 3600000
      \<and> fst (get ''promo1'' 3601000 example_cache) = Some example_data
      \<and> map_of (cache (snd (get ''promo1'' 3601000 example_cache))) ''promo1'' =
           Some \<lparr>data = example_data, entry_expiresAt = 3601000, hits = 2, lastAccess = 3601000\<rparr>)
   \<and> map_of (cache (snd (get ''promo1'' 3601000 example_cache))) ''promo1'' =
        Some (example_entry\<lparr>hits := hits example_entry + 1, lastAccess := 3601000\<rparr>)"
proof -
  let ?c = "new_UrlCache default_config :: urlData UrlCache"
  have tt: "ttl ?c = 3600000" by (simp add: new_UrlCache_def default_config_def)
  note t = get_respects_ttl [of "''promo1''" example_data 1000 ?c _ example_cache example_entry]
  have e: "map_of (cache example_cache) ''promo1'' = Some example_entry"
    using t [of 0, THEN conjunct1] tt by (simp add: example_cache_def example_entry_def)
  have late: "(3601001::int) > 1000 + 3600000" by simp
  have late': "3601001 > 1000 + ttl ?c" using tt by simp
  have in_time: "(3601000::int) \<le> 1000 + 3600000" by simp
  have in_time': "3601000 \<le> 1000 + ttl ?c" using tt by simp
  have t1: "fst (get ''promo1'' 3601001 example_cache) = None
      \<and> map_of (cache (snd (get ''promo1'' 3601001 example_cache))) ''promo1'' = None"
    using t [of 3601001, THEN conjunct2, THEN conjunct1, THEN mp, OF late']
    by (simp add: example_cache_def)
  have t2: "fst (get ''promo1'' 3601000 example_cache) = Some example_data
      \<and> map_of (cache (snd (get ''promo1'' 3601000 example_cache))) ''promo1'' =
           Some \<lparr>data = example_data, entry_expiresAt = 3601000, hits = 2, lastAccess = 3601000\<rparr>"
    using t [of 3601000, THEN conjunct2, THEN conjunct2, THEN conjunct1, THEN mp, OF in_time'] tt
    by (simp add: example_cache_def)
  have in_time'': "3601000 \<le> entry_expiresAt example_entry" by (simp add: example_entry_def)
  have t3: "map_of (cache (snd (get ''promo1'' 3601000 example_cache))) ''promo1'' =
        Some (example_entry\<lparr>hits := hits example_entry + 1, lastAccess := 3601000\<rparr>)"
    using t [of 3601000, THEN conjunct2, THEN conjunct2, THEN conjunct2, THEN mp, OF e,
        THEN conjunct2, THEN mp, OF in_time'']
    by blast
  from tt e late in_time t1 t2 t3 show ?thesis by blast
qed

subsection \<open>UrlCache: eviction\<close>

lemma first_min_Nil: "\<forall>x \<in> set post. lastAccess (snd r) \<le> lastAccess (snd x) \<Longrightarrow> first_min [] r post"
  by (simp add: first_min_def)

lemma first_min_Cons:
  "first_min pre r post \<Longrightarrow> lastAccess (snd r) < lastAccess (snd x) \<Longrightarrow> first_min (x # pre) r post"
  by (simp add: first_min_def)

lemma oldest_scan_acc:
  "oldest_scan xs (Some a) = Some r \<Longrightarrow>
     (r = a \<and> (\<forall>x \<in> set xs. lastAccess (snd a) \<le> lastAccess (snd x)))
   \<or> (\<exists>pre post. xs = pre @ r # post \<and> lastAccess (snd r) < lastAccess (snd a)
         \<and> first_min pre r post)"
proof (induction xs arbitrary: a)
  case Nil
  then show ?case by simp
next
  case (Cons x xs)
  obtain k e where x: "x = (k, e)" by (cases x)
  obtain ak ae where a: "a = (ak, ae)" by (cases a)
  show ?case
  proof (cases "lastAccess e < lastAccess ae")
    case True
    with Cons.prems x a have "oldest_scan xs (Some x) = Some r" by simp
    from Cons.IH [OF this] show ?thesis
    proof (elim disjE exE conjE)
      assume h: "r = x" "\<forall>y \<in> set xs. lastAccess (snd x) \<le> lastAccess (snd y)"
      have 1: "x # xs = [] @ r # xs" using h(1) by simp
      have 2: "lastAccess (snd r) < lastAccess (snd a)" using h(1) True x a by simp
      have 3: "first_min [] r xs" using h by (simp add: first_min_Nil)
      from 1 2 3 show ?thesis by (intro disjI2 exI conjI)
    next
      fix pre post
      assume h: "xs = pre @ r # post" "lastAccess (snd r) < lastAccess (snd x)"
         "first_min pre r post"
      have 1: "x # xs = (x # pre) @ r # post" using h(1) by simp
      have 2: "lastAccess (snd r) < lastAccess (snd a)" using h(2) True x a by simp
      have 3: "first_min (x # pre) r post" using h(2,3) by (rule first_min_Cons [rotated])
      from 1 2 3 show ?thesis by (intro disjI2 exI conjI)
    qed
  next
    case False
    with Cons.prems x a have "oldest_scan xs (Some a) = Some r" by simp
    from Cons.IH [OF this] show ?thesis
    proof (elim disjE exE conjE)
      assume h: "r = a" "\<forall>y \<in> set xs. lastAccess (snd a) \<le> lastAccess (snd y)"
      have "\<forall>y \<in> set (x # xs). lastAccess (snd a) \<le> lastAccess (snd y)"
        using h(2) False x a by simp
      with h(1) show ?thesis by (intro disjI1 conjI)
    next
      fix pre post
      assume h: "xs = pre @ r # post" "lastAccess (snd r) < lastAccess (snd a)"
         "first_min pre r post"
      have 1: "x # xs = (x # pre) @ r # post" using h(1) by simp
      have "lastAccess (snd r) < lastAccess (snd x)" using h(2) False x a by simp
      then have 3: "first_min (x # pre) r post" using h(3) by (simp add: first_min_Cons)
      from 1 h(2) 3 show ?thesis by (intro disjI2 exI conjI)
    qed
  qed
qed

lemma oldest_scan_Some: "\<exists>r. oldest_scan xs (Some a) = Some r"
  by (induction xs arbitrary: a) (auto split: prod.splits)

lemma oldest_scan_first_min:
  assumes "xs \<noteq> []"
  shows "\<exists>pre r post. oldest_scan xs None = Some r \<and> xs = pre @ r # post \<and> first_min pre r post"
proof -
  obtain x rest where xs: "xs = x # rest" using assms by (cases xs) auto
  obtain r where r: "oldest_scan rest (Some x) = Some r" using oldest_scan_Some by blast
  have s: "oldest_scan xs None = Some r" using xs r by (cases x) simp
  from oldest_scan_acc [OF r] show ?thesis
  proof (elim disjE exE conjE)
    assume h: "r = x" "\<forall>y \<in> set rest. lastAccess (snd x) \<le> lastAccess (snd y)"
    have 1: "xs = [] @ r # rest" using xs h(1) by simp
    have 3: "first_min [] r rest" using h by (simp add: first_min_Nil)
    from s 1 3 show ?thesis by (intro exI conjI)
  next
    fix pre post
    assume h: "rest = pre @ r # post" "lastAccess (snd r) < lastAccess (snd x)"
         "first_min pre r post"
    have 1: "xs = (x # pre) @ r # post" using h(1) xs by simp
    have 3: "first_min (x # pre) r post" using h(2,3) by (simp add: first_min_Cons)
    from s 1 3 show ?thesis by (intro exI conjI)
  qed
qed

lemma delete_middle:
  assumes "distinct (map fst (pre @ (k, e) # post))"
  shows "AList.delete k (pre @ (k, e) # post) = pre @ post"
proof -
  have "k \<notin> fst ` set pre" "k \<notin> fst ` set post" using assms by auto
  then have "AList.delete k pre = pre" "AList.delete k post = post"
    by (simp_all add: delete_id)
  then show ?thesis by (simp add: AList.delete_eq)
qed

lemma evict_at_capacity:
  assumes "cache c \<noteq> []" and "distinct (map fst (cache c))" and "\<forall>x \<in> set (cache c). fst x \<noteq> []"
  shows "\<exists>pre k e post. cache c = pre @ (k, e) # post
         \<and> first_min pre (k, e) post
         \<and> evictLeastUsed c = c\<lparr>cache := pre @ post\<rparr>"
proof -
  from oldest_scan_first_min [OF assms(1)]
  obtain pre r post where h: "oldest_scan (cache c) None = Some r" "cache c = pre @ r # post"
     "first_min pre r post" by blast
  obtain k e where r: "r = (k, e)" by (cases r)
  have "(k, e) \<in> set (cache c)" using h(2) r by simp
  then have ne: "k \<noteq> []" using assms(3) by fastforce
  have "distinct (map fst (pre @ (k, e) # post))" using assms(2) h(2) r by simp
  then have "AList.delete k (pre @ (k, e) # post) = pre @ post" by (rule delete_middle)
  then have "AList.delete k (cache c) = pre @ post" using h(2) r by simp
  then have 3: "evictLeastUsed c = c\<lparr>cache := pre @ post\<rparr>"
    using h(1) r ne by (simp add: evictLeastUsed_def)
  have 1: "cache c = pre @ (k, e) # post" using h(2) r by simp
  have 2: "first_min pre (k, e) post" using h(3) r by simp
  from 1 2 3 show ?thesis by (intro exI conjI)
qed

lemma maxSize_evictLeastUsed: "maxSize (evictLeastUsed c) = maxSize c"
  by (simp add: evictLeastUsed_def split: option.splits prod.splits)

lemma maxSize_set_cache: "maxSize (set_cache code d t c) = maxSize c"
  by (simp add: set_cache_def Let_def maxSize_evictLeastUsed)

lemma set_cache_below:
  assumes "length (cache c) < maxSize c"
  shows "cache (set_cache code d t c) =
     AList.update code \<lparr>data = d, entry_expiresAt = t + ttl c, hits = 1, lastAccess = t\<rparr> (cache c)"
  using assms by (simp add: set_cache_def)

lemma update_new: "k \<notin> fst ` set al \<Longrightarrow> AList.update k v al = al @ [(k, v)]"
  by (induction al) auto

lemma set_cache_new:
  assumes ok: "cache_ok c" and ne: "code \<noteq> []" and new: "code \<notin> fst ` set (cache c)"
  shows "cache_ok (set_cache code d t c)
     \<and> length (cache (set_cache code d t c)) = min (length (cache c) + 1) (maxSize c)
     \<and> fst ` set (cache (set_cache code d t c)) \<subseteq> insert code (fst ` set (cache c))"
proof (cases "length (cache c) < maxSize c")
  case True
  let ?v = "\<lparr>data = d, entry_expiresAt = t + ttl c, hits = 1, lastAccess = t\<rparr>"
  have eq: "cache (set_cache code d t c) = AList.update code ?v (cache c)"
    using True by (rule set_cache_below)
  have len: "length (AList.update code ?v (cache c)) = length (cache c) + 1"
    using new by (simp add: update_new)
  have dist: "distinct (map fst (AList.update code ?v (cache c)))"
    using ok by (simp add: cache_ok_def distinct_update)
  have keys: "fst ` set (AList.update code ?v (cache c)) = {code} \<union> fst ` set (cache c)"
    by (rule dom_update)
  have nonempty: "\<forall>x \<in> set (AList.update code ?v (cache c)). fst x \<noteq> []"
  proof
    fix x assume "x \<in> set (AList.update code ?v (cache c))"
    then have "fst x \<in> {code} \<union> fst ` set (cache c)" using keys by blast
    then show "fst x \<noteq> []" using ne ok by (auto simp: cache_ok_def)
  qed
  have 1: "cache_ok (set_cache code d t c)"
    using eq len dist nonempty True ok by (simp add: cache_ok_def maxSize_set_cache)
  have 2: "length (cache (set_cache code d t c)) = min (length (cache c) + 1) (maxSize c)"
    using eq len True by simp
  have 3: "fst ` set (cache (set_cache code d t c)) \<subseteq> insert code (fst ` set (cache c))"
    using eq keys by simp
  from 1 2 3 show ?thesis by (intro conjI)
next
  case False
  then have full: "length (cache c) = maxSize c" using ok by (simp add: cache_ok_def)
  then have nonnil: "cache c \<noteq> []" using ok by (auto simp: cache_ok_def)
  from evict_at_capacity [OF nonnil] ok
  obtain pre k e post where h: "cache c = pre @ (k, e) # post"
      "evictLeastUsed c = c\<lparr>cache := pre @ post\<rparr>"
    by (auto simp: cache_ok_def)
  let ?v = "\<lparr>data = d, entry_expiresAt = t + ttl c, hits = 1, lastAccess = t\<rparr>"
  have eq: "cache (set_cache code d t c) = AList.update code ?v (pre @ post)"
    using False h(2) by (simp add: set_cache_def)
  have new': "code \<notin> fst ` set (pre @ post)" using new h(1) by auto
  have len: "length (AList.update code ?v (pre @ post)) = length (cache c)"
    using new' h(1) by (simp add: update_new)
  have "distinct (map fst (pre @ post))" using ok h(1) by (simp add: cache_ok_def)
  then have dist: "distinct (map fst (AList.update code ?v (pre @ post)))"
    by (simp add: distinct_update)
  have keys: "fst ` set (AList.update code ?v (pre @ post)) = {code} \<union> fst ` set (pre @ post)"
    by (rule dom_update)
  have sub: "fst ` set (pre @ post) \<subseteq> fst ` set (cache c)" using h(1) by auto
  have nonempty: "\<forall>x \<in> set (AList.update code ?v (pre @ post)). fst x \<noteq> []"
  proof
    fix x assume "x \<in> set (AList.update code ?v (pre @ post))"
    then have "fst x \<in> {code} \<union> fst ` set (cache c)" using keys sub by blast
    then show "fst x \<noteq> []" using ne ok by (auto simp: cache_ok_def)
  qed
  have 1: "cache_ok (set_cache code d t c)"
    using eq len dist nonempty full ok by (simp add: cache_ok_def maxSize_set_cache)
  have 2: "length (cache (set_cache code d t c)) = min (length (cache c) + 1) (maxSize c)"
    using eq len full by simp
  have 3: "fst ` set (cache (set_cache code d t c)) \<subseteq> insert code (fst ` set (cache c))"
    using eq keys sub by auto
  from 1 2 3 show ?thesis by (intro conjI)
qed

lemma length_set_all:
  assumes "cache_ok c" and "distinct (map fst xs)" and "\<forall>x \<in> set xs. fst x \<noteq> []"
    and "fst ` set xs \<inter> fst ` set (cache c) = {}"
  shows "length (cache (set_all xs c)) = min (length (cache c) + length xs) (maxSize c)"
  using assms
proof (induction xs arbitrary: c)
  case Nil
  then show ?case by (simp add: cache_ok_def)
next
  case (Cons x xs)
  obtain code d t where x: "x = (code, d, t)" by (cases x)
  have ne: "code \<noteq> []" using Cons.prems(3) x by simp
  have new: "code \<notin> fst ` set (cache c)" using Cons.prems(4) x by auto
  note step = set_cache_new [OF Cons.prems(1) ne new, of d t]
  have disj: "fst ` set xs \<inter> fst ` set (cache (set_cache code d t c)) = {}"
  proof -
    have "code \<notin> fst ` set xs" using Cons.prems(2) x by auto
    moreover have "fst ` set xs \<inter> fst ` set (cache c) = {}" using Cons.prems(4) by auto
    ultimately show ?thesis using step by blast
  qed
  have "length (cache (set_all xs (set_cache code d t c))) =
      min (length (cache (set_cache code d t c)) + length xs) (maxSize (set_cache code d t c))"
    using Cons.IH [of "set_cache code d t c"] step Cons.prems(2,3) disj by simp
  then show ?case using step x by (simp add: maxSize_set_cache)
qed

text \<open>
  C5. A cache of capacity \<open>n > 0\<close> that starts empty and receives \<open>n + 1\<close> \<^verbatim>\<open>set\<close> calls
  for pairwise distinct (non-empty) short codes holds exactly \<open>n\<close> entries afterwards.
  Whenever \<^verbatim>\<open>set\<close> runs on a cache that is at capacity, it first removes exactly one
  entry, the first one in insertion order whose \<open>lastAccess\<close> is least (whatever the hit
  counts are), and then stores the new entry.
\<close>

theorem set_evicts_least_recently_used:
  "(0 < n \<and> distinct (map fst xs) \<and> (\<forall>x \<in> set xs. fst x \<noteq> []) \<and> length xs = n + 1 \<longrightarrow>
      length (cache (set_all xs \<lparr>cache = [], maxSize = n, ttl = tt\<rparr>)) = n)
   \<and> (cache c \<noteq> [] \<and> length (cache c) \<ge> maxSize c \<and> distinct (map fst (cache c))
        \<and> (\<forall>x \<in> set (cache c). fst x \<noteq> []) \<longrightarrow>
      (\<exists>pre k e post. cache c = pre @ (k, e) # post
         \<and> (\<forall>x \<in> set pre. lastAccess e < lastAccess (snd x))
         \<and> (\<forall>x \<in> set post. lastAccess e \<le> lastAccess (snd x))
         \<and> cache (set_cache code d now c) =
             AList.update code \<lparr>data = d, entry_expiresAt = now + ttl c, hits = 1, lastAccess = now\<rparr>
               (pre @ post)))"
proof (intro conjI impI)
  assume a: "0 < n \<and> distinct (map fst xs) \<and> (\<forall>x \<in> set xs. fst x \<noteq> []) \<and> length xs = n + 1"
  let ?c = "\<lparr>cache = [], maxSize = n, ttl = tt\<rparr> :: 'a UrlCache"
  have ok: "cache_ok ?c" using a by (simp add: cache_ok_def)
  have "length (cache (set_all xs ?c)) = min (length (cache ?c) + length xs) (maxSize ?c)"
    using a by (intro length_set_all [OF ok]) simp_all
  then show "length (cache (set_all xs ?c)) = n" using a by simp
next
  assume a: "cache c \<noteq> [] \<and> length (cache c) \<ge> maxSize c \<and> distinct (map fst (cache c))
        \<and> (\<forall>x \<in> set (cache c). fst x \<noteq> [])"
  then obtain pre k e post where h: "cache c = pre @ (k, e) # post"
      "first_min pre (k, e) post" "evictLeastUsed c = c\<lparr>cache := pre @ post\<rparr>"
    using evict_at_capacity [of c] by blast
  have 4: "cache (set_cache code d now c) =
             AList.update code \<lparr>data = d, entry_expiresAt = now + ttl c, hits = 1, lastAccess = now\<rparr>
               (pre @ post)"
    using a h(3) by (simp add: set_cache_def)
  have 2: "\<forall>x \<in> set pre. lastAccess e < lastAccess (snd x)"
    and 3: "\<forall>x \<in> set post. lastAccess e \<le> lastAccess (snd x)"
    using h(2) by (simp_all add: first_min_def)
  from h(1) 2 3 4 show "\<exists>pre k e post. cache c = pre @ (k, e) # post
         \<and> (\<forall>x \<in> set pre. lastAccess e < lastAccess (snd x))
         \<and> (\<forall>x \<in> set post. lastAccess e \<le> lastAccess (snd x))
         \<and> cache (set_cache code d now c) =
             AList.update code \<lparr>data = d, entry_expiresAt = now + ttl c, hits = 1, lastAccess = now\<rparr>
               (pre @ post)"
    by (intro exI conjI)
qed

theorem set_evicts_least_recently_used_witness:
  "((0::nat) < 2 \<and> distinct (map fst example_inserts)
      \<and> [] \<notin> set (map fst example_inserts) \<and> length example_inserts = 2 + 1)
   \<and> length (cache (set_all example_inserts \<lparr>cache = [], maxSize = 2, ttl = 1000\<rparr>)) = 2
   \<and> (cache example_full_cache \<noteq> [] \<and> length (cache example_full_cache) \<ge> maxSize example_full_cache
      \<and> distinct (map fst (cache example_full_cache))
      \<and> [] \<notin> set (map fst (cache example_full_cache)))
   \<and> (\<exists>pre k e post. cache example_full_cache = pre @ (k, e) # post
         \<and> (\<forall>x \<in> set pre. lastAccess e < lastAccess (snd x))
         \<and> (\<forall>x \<in> set post. lastAccess e \<le> lastAccess (snd x))
         \<and> cache (set_cache ''cccccc'' example_data 50 example_full_cache) =
             AList.update ''cccccc''
               \<lparr>data = example_data, entry_expiresAt = 50 + ttl example_full_cache, hits = 1,
                 lastAccess = 50\<rparr> (pre @ post))
   \<and> map fst (cache (set_cache ''cccccc'' example_data 50 example_full_cache)) = [''aaaaaa'', ''cccccc'']"
proof -
  have h1: "(0::nat) < 2 \<and> distinct (map fst example_inserts)
      \<and> (\<forall>x \<in> set example_inserts. fst x \<noteq> []) \<and> length example_inserts = 2 + 1"
    by (simp add: example_inserts_def)
  have h2: "cache example_full_cache \<noteq> [] \<and> length (cache example_full_cache) \<ge> maxSize example_full_cache
      \<and> distinct (map fst (cache example_full_cache))
      \<and> (\<forall>x \<in> set (cache example_full_cache). fst x \<noteq> [])"
    by (simp add: example_full_cache_def)
  note t1 = set_evicts_least_recently_used [where 'a = urlData and n = 2 and xs = example_inserts
      and tt = 1000, THEN conjunct1, rule_format, OF h1]
  note t2 = set_evicts_least_recently_used [where c = example_full_cache and code = "''cccccc''"
      and d = example_data and now = 50, THEN conjunct2, rule_format, OF h2]
  have t3: "map fst (cache (set_cache ''cccccc'' example_data 50 example_full_cache)) = [''aaaaaa'', ''cccccc'']"
    by (simp add: set_cache_def example_full_cache_def evictLeastUsed_def)
  have h1': "(0::nat) < 2 \<and> distinct (map fst example_inserts)
      \<and> [] \<notin> set (map fst example_inserts) \<and> length example_inserts = 2 + 1"
    by (simp add: example_inserts_def)
  have h2': "cache example_full_cache \<noteq> []
      \<and> length (cache example_full_cache) \<ge> maxSize example_full_cache
      \<and> distinct (map fst (cache example_full_cache))
      \<and> [] \<notin> set (map fst (cache example_full_cache))"
    by (simp add: example_full_cache_def)
  from h1' h2' t1 t2 t3 show ?thesis by blast
qed

subsection \<open>Short codes: the retry loop\<close>

lemma snd_generateShortCode: "snd (generateShortCode rnd pos len) = pos + len"
  by (simp add: generateShortCode_def Let_def)

lemma generateShortCode_pair:
  "c = fst (generateShortCode rnd pos len) \<Longrightarrow> generateShortCode rnd pos len = (c, pos + len)"
  by (simp add: prod_eq_iff snd_generateShortCode)

lemma attempt_shift:
  "attempt cfg rnd (pos + shortCode_length cfg) j = attempt cfg rnd pos (Suc j)"
  by (simp add: attempt_def add.assoc)

lemma map_attempt_Suc:
  "map (attempt cfg rnd pos) [0..<Suc i] =
     attempt cfg rnd pos 0 # map (attempt cfg rnd (pos + shortCode_length cfg)) [0..<i]"
proof -
  have "[0..<Suc i] = 0 # map Suc [0..<i]"
    by (simp add: upt_conv_Cons map_Suc_upt del: upt_Suc)
  then have "map (attempt cfg rnd pos) [0..<Suc i] =
      attempt cfg rnd pos 0 # map (\<lambda>j. attempt cfg rnd pos (Suc j)) [0..<i]"
    by (simp add: comp_def del: upt_Suc)
  then show ?thesis by (simp add: attempt_shift del: upt_Suc)
qed

lemma retry_loop_Suc:
  "retry_loop cfg ex rnd pos (Suc k) checked =
     (if \<not> ex (attempt cfg rnd pos 0)
      then (attempt cfg rnd pos 0, pos + shortCode_length cfg, checked @ [attempt cfg rnd pos 0])
      else retry_loop cfg ex rnd (pos + shortCode_length cfg) k
             (checked @ [attempt cfg rnd pos 0]))"
proof -
  have "generateShortCode rnd pos (shortCode_length cfg) =
      (attempt cfg rnd pos 0, pos + shortCode_length cfg)"
    by (rule generateShortCode_pair) (simp add: attempt_def)
  then show ?thesis by (simp add: Let_def)
qed

lemma retry_loop_first:
  assumes "i < k" and "\<not> ex (attempt cfg rnd pos i)" and "\<forall>j<i. ex (attempt cfg rnd pos j)"
  shows "retry_loop cfg ex rnd pos k checked =
     (attempt cfg rnd pos i, pos + Suc i * shortCode_length cfg,
      checked @ map (attempt cfg rnd pos) [0..<Suc i])"
  using assms
proof (induction k arbitrary: pos i checked)
  case 0
  then show ?case by simp
next
  case (Suc k)
  show ?case
  proof (cases i)
    case 0
    then have "\<not> ex (attempt cfg rnd pos 0)" using Suc.prems(2) by simp
    then show ?thesis using 0 by (simp add: retry_loop_Suc del: retry_loop.simps)
  next
    case (Suc j)
    have ex0: "ex (attempt cfg rnd pos 0)" using Suc.prems(3) Suc by simp
    have 1: "j < k" using Suc.prems(1) Suc by simp
    have 2: "\<not> ex (attempt cfg rnd (pos + shortCode_length cfg) j)"
      using Suc.prems(2) Suc by (simp add: attempt_shift)
    have 3: "\<forall>l<j. ex (attempt cfg rnd (pos + shortCode_length cfg) l)"
      using Suc.prems(3) Suc by (simp add: attempt_shift)
    have "retry_loop cfg ex rnd (pos + shortCode_length cfg) k (checked @ [attempt cfg rnd pos 0]) =
       (attempt cfg rnd (pos + shortCode_length cfg) j,
        pos + shortCode_length cfg + Suc j * shortCode_length cfg,
        (checked @ [attempt cfg rnd pos 0]) @
          map (attempt cfg rnd (pos + shortCode_length cfg)) [0..<Suc j])"
      by (rule Suc.IH [OF 1 2 3])
    then show ?thesis
      using ex0 Suc map_attempt_Suc [of cfg rnd pos "Suc j"]
      by (simp add: retry_loop_Suc attempt_shift del: retry_loop.simps upt_Suc)
  qed
qed

lemma retry_loop_exhausted:
  assumes "\<forall>j<k. ex (attempt cfg rnd pos j)"
  shows "retry_loop cfg ex rnd pos k checked =
     (fst (generateShortCode rnd (pos + k * shortCode_length cfg) (shortCode_length cfg + 2)),
      pos + k * shortCode_length cfg + (shortCode_length cfg + 2),
      checked @ map (attempt cfg rnd pos) [0..<k])"
  using assms
proof (induction k arbitrary: pos checked)
  case 0
  define c where "c = fst (generateShortCode rnd pos (shortCode_length cfg + 2))"
  then have "generateShortCode rnd pos (shortCode_length cfg + 2) =
      (c, pos + (shortCode_length cfg + 2))"
    by (rule generateShortCode_pair)
  then have "retry_loop cfg ex rnd pos 0 checked = (c, pos + (shortCode_length cfg + 2), checked)"
    by simp
  then show ?case by (simp add: c_def)
next
  case (Suc k)
  have ex0: "ex (attempt cfg rnd pos 0)" using Suc.prems by simp
  have 3: "\<forall>l<k. ex (attempt cfg rnd (pos + shortCode_length cfg) l)"
    using Suc.prems by (simp add: attempt_shift)
  have "retry_loop cfg ex rnd (pos + shortCode_length cfg) k (checked @ [attempt cfg rnd pos 0]) =
     (fst (generateShortCode rnd (pos + shortCode_length cfg + k * shortCode_length cfg)
         (shortCode_length cfg + 2)),
      pos + shortCode_length cfg + k * shortCode_length cfg + (shortCode_length cfg + 2),
      (checked @ [attempt cfg rnd pos 0]) @ map (attempt cfg rnd (pos + shortCode_length cfg)) [0..<k])"
    by (rule Suc.IH [OF 3])
  then show ?case
    using ex0 map_attempt_Suc [of cfg rnd pos k]
    by (simp add: retry_loop_Suc add.assoc del: retry_loop.simps upt_Suc)
qed

text \<open>
  C3. Let the existence predicate report membership in a set \<open>S\<close> of existing codes.
  If iteration \<open>i\<close> of the retry loop, with \<open>i\<close> below \<^verbatim>\<open>maxRetries\<close>, is the first to draw a
  code outside \<open>S\<close>, \<^verbatim>\<open>generateUniqueShortCode\<close> returns that code after \<open>i + 1\<close> checks; so
  whenever some iteration draws a fresh code, the result is not in \<open>S\<close>. If every one of
  the \<^verbatim>\<open>maxRetries\<close> iterations draws a code of \<open>S\<close>, the result is one more code, drawn
  at length \<open>length + 2\<close>, whether or not it is in \<open>S\<close>: the predicate was called on the
  \<^verbatim>\<open>maxRetries\<close> drawn codes only.
\<close>

theorem generateUnique_fresh_or_fallback:
  "(\<forall>i. i < shortCode_maxRetries cfg \<and> attempt cfg rnd pos i \<notin> S
         \<and> (\<forall>j<i. attempt cfg rnd pos j \<in> S) \<longrightarrow>
      generateUniqueShortCode cfg (\<lambda>code. code \<in> S) rnd pos =
        (attempt cfg rnd pos i, pos + Suc i * shortCode_length cfg,
         map (attempt cfg rnd pos) [0..<Suc i])
      \<and> fst (generateUniqueShortCode cfg (\<lambda>code. code \<in> S) rnd pos) \<notin> S)
   \<and> ((\<exists>i. i < shortCode_maxRetries cfg \<and> attempt cfg rnd pos i \<notin> S) \<longrightarrow>
        fst (generateUniqueShortCode cfg (\<lambda>code. code \<in> S) rnd pos) \<notin> S)
   \<and> ((\<forall>i. i < shortCode_maxRetries cfg \<longrightarrow> attempt cfg rnd pos i \<in> S) \<longrightarrow>
      generateUniqueShortCode cfg (\<lambda>code. code \<in> S) rnd pos =
        (fallback cfg rnd pos,
         pos + shortCode_maxRetries cfg * shortCode_length cfg + (shortCode_length cfg + 2),
         map (attempt cfg rnd pos) [0..<shortCode_maxRetries cfg]))"
proof -
  let ?ex = "\<lambda>code. code \<in> S"
  let ?n = "shortCode_maxRetries cfg"
  have first: "generateUniqueShortCode cfg ?ex rnd pos =
        (attempt cfg rnd pos i, pos + Suc i * shortCode_length cfg,
         map (attempt cfg rnd pos) [0..<Suc i])"
    if "i < ?n" "attempt cfg rnd pos i \<notin> S" "\<forall>j<i. attempt cfg rnd pos j \<in> S" for i
    using retry_loop_first [of i ?n ?ex cfg rnd pos "[]"] that
    by (simp add: generateUniqueShortCode_def del: upt_Suc)
  have found: "fst (generateUniqueShortCode cfg ?ex rnd pos) \<notin> S"
    if ex: "\<exists>i. i < ?n \<and> attempt cfg rnd pos i \<notin> S"
  proof -
    define m where "m = (LEAST i. i < ?n \<and> attempt cfg rnd pos i \<notin> S)"
    have m: "m < ?n \<and> attempt cfg rnd pos m \<notin> S"
      unfolding m_def using ex by (rule LeastI_ex)
    have least: "\<forall>j<m. attempt cfg rnd pos j \<in> S"
    proof (intro allI impI)
      fix j assume "j < m"
      then have "\<not> (j < ?n \<and> attempt cfg rnd pos j \<notin> S)"
        unfolding m_def by (rule not_less_Least)
      then show "attempt cfg rnd pos j \<in> S" using \<open>j < m\<close> m by simp
    qed
    have "generateUniqueShortCode cfg ?ex rnd pos =
        (attempt cfg rnd pos m, pos + Suc m * shortCode_length cfg,
         map (attempt cfg rnd pos) [0..<Suc m])"
      using m least by (intro first) blast+
    then have "fst (generateUniqueShortCode cfg ?ex rnd pos) = attempt cfg rnd pos m"
      by (simp only: fst_conv)
    then show ?thesis using m by simp
  qed
  have exhausted: "generateUniqueShortCode cfg ?ex rnd pos =
        (fallback cfg rnd pos,
         pos + ?n * shortCode_length cfg + (shortCode_length cfg + 2),
         map (attempt cfg rnd pos) [0..<?n])"
    if "\<forall>i<?n. attempt cfg rnd pos i \<in> S"
    using retry_loop_exhausted [of ?n ?ex cfg rnd pos "[]"] that
    by (simp add: generateUniqueShortCode_def fallback_def)
  show ?thesis
  proof (intro conjI allI impI)
    fix i
    assume a: "i < ?n \<and> attempt cfg rnd pos i \<notin> S \<and> (\<forall>j<i. attempt cfg rnd pos j \<in> S)"
    then show "generateUniqueShortCode cfg ?ex rnd pos =
        (attempt cfg rnd pos i, pos + Suc i * shortCode_length cfg,
         map (attempt cfg rnd pos) [0..<Suc i])"
      by (intro first) blast+
    from a have "\<exists>i. i < ?n \<and> attempt cfg rnd pos i \<notin> S" by blast
    then show "fst (generateUniqueShortCode cfg ?ex rnd pos) \<notin> S" by (rule found)
  next
    assume "\<exists>i. i < ?n \<and> attempt cfg rnd pos i \<notin> S"
    then show "fst (generateUniqueShortCode cfg ?ex rnd pos) \<notin> S" by (rule found)
  next
    assume "\<forall>i. i < ?n \<longrightarrow> attempt cfg rnd pos i \<in> S"
    then show "generateUniqueShortCode cfg ?ex rnd pos =
        (fallback cfg rnd pos,
         pos + ?n * shortCode_length cfg + (shortCode_length cfg + 2),
         map (attempt cfg rnd pos) [0..<?n])"
      by (intro exhausted) blast
  qed
qed

theorem generateUnique_fresh_or_fallback_witness:
  "(1 < shortCode_maxRetries default_config
      \<and> attempt default_config example_rnd 0 1 \<notin> {''abcdef''}
      \<and> attempt default_config example_rnd 0 0 \<in> {''abcdef''})
   \<and> generateUniqueShortCode default_config (\<lambda>code. code \<in> {''abcdef''}) example_rnd 0 =
        (''ghijkl'', 12, [''abcdef'', ''ghijkl''])
   \<and> ''ghijkl'' \<notin> {''abcdef''}
   \<and> set (map (attempt default_config example_rnd 0) [0..<shortCode_maxRetries default_config])
        \<subseteq> set example_taken
   \<and> generateUniqueShortCode default_config (\<lambda>code. code \<in> set example_taken) example_rnd 0 =
        (''EFGHIJKL'', 38, [''abcdef'', ''ghijkl'', ''mnopqr'', ''stuvwx'', ''yzABCD''])
   \<and> ''EFGHIJKL'' \<in> set example_taken"
proof -
  have a0: "attempt default_config example_rnd 0 0 = ''abcdef''" by code_simp
  have a1: "attempt default_config example_rnd 0 1 = ''ghijkl''" by code_simp
  have a2: "attempt default_config example_rnd 0 2 = ''mnopqr''" by code_simp
  have a3: "attempt default_config example_rnd 0 3 = ''stuvwx''" by code_simp
  have a4: "attempt default_config example_rnd 0 4 = ''yzABCD''" by code_simp
  have fb: "fallback default_config example_rnd 0 = ''EFGHIJKL''" by code_simp
  have n: "shortCode_maxRetries default_config = 5" "shortCode_length default_config = 6"
    by (simp_all add: default_config_def)
  have h1: "1 < shortCode_maxRetries default_config
      \<and> attempt default_config example_rnd 0 1 \<notin> {''abcdef''}
      \<and> (\<forall>j<1. attempt default_config example_rnd 0 j \<in> {''abcdef''})"
    using a0 a1 n by simp
  have h2: "\<forall>i. i < shortCode_maxRetries default_config \<longrightarrow>
          attempt default_config example_rnd 0 i \<in> set example_taken"
  proof (intro allI impI)
    fix i assume "i < shortCode_maxRetries default_config"
    then have "i = 0 \<or> i = 1 \<or> i = 2 \<or> i = 3 \<or> i = 4" using n by arith
    then show "attempt default_config example_rnd 0 i \<in> set example_taken"
      using a0 a1 a2 a3 a4 by (auto simp: example_taken_def)
  qed
  have t1: "generateUniqueShortCode default_config (\<lambda>code. code \<in> {''abcdef''}) example_rnd 0 =
        (''ghijkl'', 12, [''abcdef'', ''ghijkl''])"
    using generateUnique_fresh_or_fallback [of default_config example_rnd 0 "{''abcdef''}",
        THEN conjunct1, rule_format, OF h1, THEN conjunct1] a0 a1 n
    by (simp add: upt_rec numeral_eq_Suc)
  have t2: "generateUniqueShortCode default_config (\<lambda>code. code \<in> set example_taken) example_rnd 0 =
        (''EFGHIJKL'', 38, [''abcdef'', ''ghijkl'', ''mnopqr'', ''stuvwx'', ''yzABCD''])"
    using generateUnique_fresh_or_fallback [of default_config example_rnd 0 "set example_taken",
        THEN conjunct2, THEN conjunct2, THEN mp, OF h2] a0 a1 a2 a3 a4 fb n
    by (simp add: upt_rec numeral_eq_Suc)
  have m1: "''ghijkl'' \<notin> {''abcdef''}" by simp
  have m2: "''EFGHIJKL'' \<in> set example_taken" by (simp add: example_taken_def)
  have h1': "1 < shortCode_maxRetries default_config
      \<and> attempt default_config example_rnd 0 1 \<notin> {''abcdef''}
      \<and> attempt default_config example_rnd 0 0 \<in> {''abcdef''}"
    using a0 a1 n by simp
  have h2': "set (map (attempt default_config example_rnd 0)
      [0..<shortCode_maxRetries default_config]) \<subseteq> set example_taken"
    using h2 by auto
  from h1' h2' t1 t2 m1 m2 show ?thesis by blast
qed

subsection \<open>Click recording\<close>

text \<open>
  C8. On a document whose click history holds at most 100 entries, the method
  \<^verbatim>\<open>recordClick\<close> adds exactly 1 to \<^verbatim>\<open>clicks\<close> and appends exactly one entry made of the
  instant and of \<^verbatim>\<open>ip\<close>, \<^verbatim>\<open>userAgent\<close> and \<^verbatim>\<open>referer\<close> of its argument; when the history
  holds 100 entries the oldest one is dropped before the append, so the history does
  not grow beyond 100 entries.
\<close>

theorem recordClick_bounded_history:
  assumes "length (clickHistory u) \<le> 100"
  shows "clicks (url_recordClick cd now u) = clicks u + 1
     \<and> clickHistory (url_recordClick cd now u) =
         (if length (clickHistory u) = 100 then tl (clickHistory u) else clickHistory u)
         @ [\<lparr>timestamp = now, ip = cd_ip cd, userAgent = cd_userAgent cd, referer = cd_referer cd\<rparr>]
     \<and> length (clickHistory (url_recordClick cd now u)) \<le> 100
     \<and> length (clickHistory (url_recordClick cd now u)) =
         (if length (clickHistory u) = 100 then 100 else length (clickHistory u) + 1)"
  using assms by (auto simp: url_recordClick_def Let_def)

theorem recordClick_bounded_history_witness:
  "length (clickHistory (example_url\<lparr>clickHistory := replicate 100 example_click\<rparr>)) \<le> 100
   \<and> clicks (url_recordClick example_clickData 5000
        (example_url\<lparr>clickHistory := replicate 100 example_click\<rparr>)) = 1
   \<and> clickHistory (url_recordClick example_clickData 5000
        (example_url\<lparr>clickHistory := replicate 100 example_click\<rparr>)) =
       replicate 99 example_click @
       [\<lparr>timestamp = 5000, ip = Some ''10.0.0.1'', userAgent = Some ''agent'', referer = None\<rparr>]
   \<and> length (clickHistory (url_recordClick example_clickData 5000
        (example_url\<lparr>clickHistory := replicate 100 example_click\<rparr>))) = 100"
proof -
  have h: "length (clickHistory (example_url\<lparr>clickHistory := replicate 100 example_click\<rparr>)) \<le> 100"
    by simp
  have r: "tl (replicate 100 example_click) = replicate 99 example_click"
    by (simp add: tl_replicate)
  have t: "clicks (url_recordClick example_clickData 5000
        (example_url\<lparr>clickHistory := replicate 100 example_click\<rparr>)) = 1
   \<and> clickHistory (url_recordClick example_clickData 5000
        (example_url\<lparr>clickHistory := replicate 100 example_click\<rparr>)) =
       replicate 99 example_click @
       [\<lparr>timestamp = 5000, ip = Some ''10.0.0.1'', userAgent = Some ''agent'', referer = None\<rparr>]
   \<and> length (clickHistory (url_recordClick example_clickData 5000
        (example_url\<lparr>clickHistory := replicate 100 example_click\<rparr>))) = 100"
    using recordClick_bounded_history [OF h, of example_clickData 5000] r
    by (simp add: example_url_def example_clickData_def)
  from h t show ?thesis by blast
qed

text \<open>
  C10. The service's \<^verbatim>\<open>recordClick\<close>, called with a short code that no stored document
  has, completes without an error and leaves the state as it was.
\<close>

theorem recordClick_unknown_code_noop:
  assumes "\<forall>u \<in> set (urls w). shortCode u \<noteq> sc"
  shows "recordClick sc cd now w = (Inr (), w)"
proof -
  have "findOne_shortCode sc (urls w) = None"
    using assms by (auto simp: findOne_shortCode_def find_None_iff)
  then show ?thesis by (simp add: recordClick_def)
qed

theorem recordClick_unknown_code_noop_witness:
  "findOne_shortCode ''nocode'' (urls example_world) = None
   \<and> recordClick ''nocode'' example_clickData 5000 example_world = (Inr (), example_world)"
proof -
  have h: "\<forall>u \<in> set (urls example_world). shortCode u \<noteq> ''nocode''"
    by (simp add: example_world_def example_url_def)
  have h': "findOne_shortCode ''nocode'' (urls example_world) = None"
    using h by (simp add: findOne_shortCode_def find_None_iff)
  from h' recordClick_unknown_code_noop [OF h, of example_clickData 5000] show ?thesis by blast
qed

subsection \<open>UrlService: update and delete\<close>

lemma same_immutable_refl: "same_immutable u u"
  by (simp add: same_immutable_def)

lemma same_immutable_apply_update: "same_immutable u (apply_update u f)"
  by (cases f) (simp_all add: same_immutable_def apply_update_def)

lemma same_immutable_trans: "same_immutable a b \<Longrightarrow> same_immutable b c \<Longrightarrow> same_immutable a c"
  by (simp add: same_immutable_def)

lemma same_immutable_foldl: "same_immutable u (foldl apply_update u ups)"
proof (induction ups arbitrary: u)
  case Nil
  show ?case by (simp add: same_immutable_refl)
next
  case (Cons f ups)
  have "same_immutable (apply_update u f) (foldl apply_update (apply_update u f) ups)"
    by (rule Cons.IH)
  with same_immutable_apply_update [of u f] show ?case
    by (simp add: same_immutable_trans)
qed

lemma find_shortCode_userId:
  "findOne_shortCode_userId sc uid docs = Some u \<Longrightarrow>
     shortCode u = sc \<and> userId u = Some uid \<and> u \<in> set docs"
  by (auto simp: findOne_shortCode_userId_def find_Some_iff)

lemma find_shortCode_userId_None:
  "(findOne_shortCode_userId sc uid docs = None) =
     (\<forall>u \<in> set docs. shortCode u = sc \<longrightarrow> userId u \<noteq> Some uid)"
  by (auto simp: findOne_shortCode_userId_def find_None_iff)

lemma save_nth:
  assumes "distinct (map doc_id docs)" and "u0 \<in> set docs" and "doc_id u = doc_id u0"
    and "i < length docs"
  shows "save u docs ! i = (if docs ! i = u0 then u else docs ! i)"
proof -
  have "doc_id (docs ! i) = doc_id u0 \<longleftrightarrow> docs ! i = u0"
  proof
    assume eq: "doc_id (docs ! i) = doc_id u0"
    have "docs ! i \<in> set docs" using assms(4) by simp
    then show "docs ! i = u0"
      using assms(1,2) eq by (meson distinct_map inj_onD)
  qed simp
  then show ?thesis using assms(3,4) by (simp add: save_def)
qed

lemma shortCode_foldl_apply_update: "shortCode (foldl apply_update u ups) = shortCode u"
  by (induction ups arbitrary: u) (auto simp: apply_update_def split: update_field.splits)

text \<open>
  C4. When \<^verbatim>\<open>updateUrl\<close> or \<^verbatim>\<open>deleteUrl\<close> returns successfully, the cache of the resulting
  state has no entry for the short code, so a following \<^verbatim>\<open>get\<close> for it, at any instant,
  returns nothing and in particular not the target cached before the mutation.
\<close>

theorem mutation_invalidates_cache:
  "(updateUrl cfg sc uid ups w = (Inr r, w') \<longrightarrow>
      map_of (cache (urlCache w')) sc = None \<and> fst (get sc t (urlCache w')) = None)
   \<and> (deleteUrl sc uid w = (Inr m, w'') \<longrightarrow>
      map_of (cache (urlCache w'')) sc = None \<and> fst (get sc t (urlCache w'')) = None)"
  by (auto simp: updateUrl_def deleteUrl_def Let_def shortCode_foldl_apply_update
        map_of_invalidate get_absent
      split: option.splits dest!: find_shortCode_userId)

theorem mutation_invalidates_cache_witness:
  "fst (get ''promo1'' 600 (urlCache example_cached_world)) = Some example_data
   \<and> updateUrl default_config ''promo1'' 7 [OriginalUrl ''https://new.com''] example_cached_world =
       (Inr (formatUrlResponse default_config (example_url\<lparr>originalUrl := ''https://new.com''\<rparr>)),
        snd (updateUrl default_config ''promo1'' 7 [OriginalUrl ''https://new.com'']
               example_cached_world))
   \<and> fst (get ''promo1'' 600 (urlCache (snd (updateUrl default_config ''promo1'' 7
            [OriginalUrl ''https://new.com''] example_cached_world)))) = None
   \<and> deleteUrl ''promo1'' 7 example_cached_world =
       (Inr ''URL deleted successfully'', snd (deleteUrl ''promo1'' 7 example_cached_world))
   \<and> fst (get ''promo1'' 600 (urlCache (snd (deleteUrl ''promo1'' 7 example_cached_world)))) = None"
proof -
  have f: "findOne_shortCode_userId ''promo1'' 7 (urls example_cached_world) = Some example_url"
    by (simp add: example_cached_world_def example_world_def example_url_def
          findOne_shortCode_userId_def)
  have before: "fst (get ''promo1'' 600 (urlCache example_cached_world)) = Some example_data"
    by (simp add: example_cached_world_def example_world_def example_cache_def get_def
          set_cache_def new_UrlCache_def default_config_def)
  have u: "updateUrl default_config ''promo1'' 7 [OriginalUrl ''https://new.com''] example_cached_world =
       (Inr (formatUrlResponse default_config (example_url\<lparr>originalUrl := ''https://new.com''\<rparr>)),
        snd (updateUrl default_config ''promo1'' 7 [OriginalUrl ''https://new.com'']
               example_cached_world))"
    using f by (simp add: updateUrl_def Let_def apply_update_def key_of_def allowedUpdates_def)
  have d: "deleteUrl ''promo1'' 7 example_cached_world =
       (Inr ''URL deleted successfully'', snd (deleteUrl ''promo1'' 7 example_cached_world))"
    using f by (simp add: deleteUrl_def Let_def)
  note t1 = mutation_invalidates_cache [THEN conjunct1, rule_format, OF u, THEN conjunct2, of 600]
  note t2 = mutation_invalidates_cache [THEN conjunct2, rule_format, OF d, THEN conjunct2, of 600]
  from before u d t1 t2 show ?thesis by blast
qed

text \<open>
  C9. In a collection whose documents have pairwise distinct identifiers: when
  \<^verbatim>\<open>updateUrl\<close> succeeds, every document keeps its identifier, short code, custom slug,
  owner (\<^verbatim>\<open>userId\<close>, \<^verbatim>\<open>guestId\<close>), click count, click history, QR code and creation
  instant, so that only \<^verbatim>\<open>originalUrl\<close>, \<^verbatim>\<open>isActive\<close> and \<^verbatim>\<open>expiresAt\<close> can differ, and
  a document that is not the one with the given short code and owner is left as it was.
  When no document has both the given short code and the given owner, which includes a
  short code held by another owner, the call fails with the 404 error
  \<^verbatim>\<open>NOT_FOUND\<close> and the state is unchanged.
\<close>

theorem updateUrl_frame:
  assumes ids: "distinct (map doc_id (urls w))"
  shows "(updateUrl cfg sc uid ups w = (Inr r, w') \<longrightarrow>
            length (urls w') = length (urls w)
          \<and> (\<forall>i < length (urls w).
                same_immutable (urls w ! i) (urls w' ! i)
              \<and> (\<not> (shortCode (urls w ! i) = sc \<and> userId (urls w ! i) = Some uid) \<longrightarrow>
                    urls w' ! i = urls w ! i))
          \<and> next_id w' = next_id w \<and> r_shortCode r = sc)
       \<and> ((\<forall>u \<in> set (urls w). shortCode u = sc \<longrightarrow> userId u \<noteq> Some uid) \<longrightarrow>
            updateUrl cfg sc uid ups w =
              (Inl (AppError ''URL not found or access denied'' 404 ''NOT_FOUND''), w))"
proof (intro conjI impI)
  assume a: "\<forall>u \<in> set (urls w). shortCode u = sc \<longrightarrow> userId u \<noteq> Some uid"
  then have "findOne_shortCode_userId sc uid (urls w) = None"
    by (simp add: find_shortCode_userId_None)
  then show "updateUrl cfg sc uid ups w =
      (Inl (AppError ''URL not found or access denied'' 404 ''NOT_FOUND''), w)"
    by (simp add: updateUrl_def notFound_def)
next
  assume a: "updateUrl cfg sc uid ups w = (Inr r, w')"
  then obtain u0 where f: "findOne_shortCode_userId sc uid (urls w) = Some u0"
    by (cases "findOne_shortCode_userId sc uid (urls w)") (simp_all add: updateUrl_def)
  define u where "u = foldl apply_update u0 ups"
  have fr: "same_immutable u0 u" unfolding u_def by (rule same_immutable_foldl)
  have u0: "shortCode u0 = sc" "userId u0 = Some uid" "u0 \<in> set (urls w)"
    using find_shortCode_userId [OF f] by simp_all
  have w': "urls w' = save u (urls w)" "next_id w' = next_id w" "r = formatUrlResponse cfg u"
    using a f by (auto simp: updateUrl_def Let_def u_def)
  show "length (urls w') = length (urls w)" using w'(1) by (simp add: save_def)
  show "next_id w' = next_id w" by (rule w'(2))
  show "r_shortCode r = sc" using w'(3) fr u0(1) by (simp add: formatUrlResponse_def same_immutable_def)
  show "\<forall>i < length (urls w).
                same_immutable (urls w ! i) (urls w' ! i)
              \<and> (\<not> (shortCode (urls w ! i) = sc \<and> userId (urls w ! i) = Some uid) \<longrightarrow>
                    urls w' ! i = urls w ! i)"
  proof (intro allI impI)
    fix i assume i: "i < length (urls w)"
    have id: "doc_id u = doc_id u0" using fr by (simp add: same_immutable_def)
    have nth: "urls w' ! i = (if urls w ! i = u0 then u else urls w ! i)"
      using save_nth [OF ids u0(3) id i] w'(1) by simp
    show "same_immutable (urls w ! i) (urls w' ! i)
              \<and> (\<not> (shortCode (urls w ! i) = sc \<and> userId (urls w ! i) = Some uid) \<longrightarrow>
                    urls w' ! i = urls w ! i)"
      using nth fr u0(1,2) by (auto simp: same_immutable_refl)
  qed
qed

theorem updateUrl_frame_witness:
  "distinct (map doc_id (urls example_two_world))
   \<and> updateUrl default_config ''promo1'' 7
        [OriginalUrl ''https://new.com'', Other ''shortCode'', ExpiresAt None] example_two_world =
       (Inr (formatUrlResponse default_config
               (example_url\<lparr>originalUrl := ''https://new.com'', expiresAt := None\<rparr>)),
        example_two_world\<lparr>urls :=
          [example_url\<lparr>originalUrl := ''https://new.com'', expiresAt := None\<rparr>, example_guest_url]\<rparr>)
   \<and> same_immutable example_url (example_url\<lparr>originalUrl := ''https://new.com'', expiresAt := None\<rparr>)
   \<and> findOne_shortCode_userId ''promo1'' 8 (urls example_two_world) = None
   \<and> updateUrl default_config ''promo1'' 8 [OriginalUrl ''https://new.com''] example_two_world =
       (Inl (AppError ''URL not found or access denied'' 404 ''NOT_FOUND''), example_two_world)"
proof -
  have ids: "distinct (map doc_id (urls example_two_world))"
    by (simp add: example_two_world_def example_url_def example_guest_url_def)
  have u: "updateUrl default_config ''promo1'' 7
        [OriginalUrl ''https://new.com'', Other ''shortCode'', ExpiresAt None] example_two_world =
       (Inr (formatUrlResponse default_config
               (example_url\<lparr>originalUrl := ''https://new.com'', expiresAt := None\<rparr>)),
        example_two_world\<lparr>urls :=
          [example_url\<lparr>originalUrl := ''https://new.com'', expiresAt := None\<rparr>, example_guest_url]\<rparr>)"
    by (simp add: updateUrl_def Let_def apply_update_def key_of_def allowedUpdates_def
          example_two_world_def example_url_def example_guest_url_def
          findOne_shortCode_userId_def save_def invalidate_def new_UrlCache_def)
  have n: "\<forall>u \<in> set (urls example_two_world). shortCode u = ''promo1'' \<longrightarrow> userId u \<noteq> Some 8"
    by (simp add: example_two_world_def example_url_def example_guest_url_def)
  have t1: "same_immutable example_url
      (example_url\<lparr>originalUrl := ''https://new.com'', expiresAt := None\<rparr>)"
    using updateUrl_frame [OF ids, THEN conjunct1, rule_format, OF u, THEN conjunct2,
        THEN conjunct1, rule_format, of 0]
    by (simp add: example_two_world_def)
  note t2 = updateUrl_frame [OF ids, THEN conjunct2, THEN mp, OF n,
      of default_config "[OriginalUrl ''https://new.com'']"]
  have n': "findOne_shortCode_userId ''promo1'' 8 (urls example_two_world) = None"
    using n by (simp add: find_shortCode_userId_None)
  from ids u n' t1 t2 show ?thesis by blast
qed

subsection \<open>UrlService: creation\<close>





subsection \<open>Resolution of expired links\<close>

text \<open>
  C2 reads the error of an expired record as a kind of its own. The record of
  \<open>example_world\<close> expires at instant 1000 and is not cached. At instant
  2000 its resolution fails with the same status 404 and the same code \<^verbatim>\<open>NOT_FOUND\<close> as
  the resolution of a short code that no record has; the two errors differ in their
  message only.
\<close>

theorem expired_error_is_not_found_kind:
  "findByShortCode ''promo1'' (urls example_world) = Some example_url
   \<and> expiresAt example_url = Some 1000
   \<and> map_of (cache (urlCache example_world)) ''promo1'' = None
   \<and> fst (getByShortCode ''promo1'' 2000 example_world) =
        Inl (AppError ''URL has expired'' 404 ''NOT_FOUND'')
   \<and> fst (getByShortCode ''nocode'' 2000 example_world) =
        Inl (AppError ''URL not found'' 404 ''NOT_FOUND'')
   \<and> kind_of (AppError ''URL has expired'' 404 ''NOT_FOUND'') =
       kind_of (AppError ''URL not found'' 404 ''NOT_FOUND'')"
  by (simp add: getByShortCode_def get_def findByShortCode_def example_world_def
        example_url_def new_UrlCache_def notFound_def)

text \<open>
  C2, as the code has it. The resolution of a short code that is not cached, whose
  active record has an \<^verbatim>\<open>expiresAt\<close> earlier than the current instant, fails with the error
  \<^verbatim>\<open>notFound('URL has expired')\<close>: status 404 and code \<^verbatim>\<open>NOT_FOUND\<close>, the kind of the error
  for an absent record, from which only the message tells it apart. The record stays in
  the store and the state is unchanged; the redirect handler passes the error on.
\<close>

theorem resolve_expired_uncached:
  assumes "map_of (cache (urlCache w)) sc = None"
    and "findByShortCode sc (urls w) = Some u"
    and "expiresAt u = Some e" and "e < now"
  shows "getByShortCode sc now w = (Inl (AppError ''URL has expired'' 404 ''NOT_FOUND''), w)
       \<and> (param_shortCode req = sc \<longrightarrow>
            redirectUrl req now w = (Inl (AppError ''URL has expired'' 404 ''NOT_FOUND''), w))
       \<and> kind_of (AppError ''URL has expired'' 404 ''NOT_FOUND'') = kind_of (notFound ''URL not found'')
       \<and> AppError ''URL has expired'' 404 ''NOT_FOUND'' \<noteq> notFound ''URL not found''"
  using assms
  by (simp add: getByShortCode_def redirectUrl_def get_def notFound_def)

theorem resolve_expired_uncached_witness:
  "map_of (cache (urlCache example_world)) ''promo1'' = None
   \<and> findByShortCode ''promo1'' (urls example_world) = Some example_url
   \<and> expiresAt example_url = Some 1000 \<and> (1000::int) < 1001
   \<and> getByShortCode ''promo1'' 1001 example_world =
        (Inl (AppError ''URL has expired'' 404 ''NOT_FOUND''), example_world)
   \<and> param_shortCode example_request = ''promo1''
   \<and> redirectUrl example_request 1001 example_world =
        (Inl (AppError ''URL has expired'' 404 ''NOT_FOUND''), example_world)"
proof -
  have h1: "map_of (cache (urlCache example_world)) ''promo1'' = None"
    by (simp add: example_world_def new_UrlCache_def)
  have h2: "findByShortCode ''promo1'' (urls example_world) = Some example_url"
    by (simp add: example_world_def findByShortCode_def example_url_def)
  have h3: "expiresAt example_url = Some 1000" by (simp add: example_url_def)
  have h4: "(1000::int) < 1001" by simp
  have h5: "param_shortCode example_request = ''promo1''" by (simp add: example_request_def)
  note t = resolve_expired_uncached [OF h1 h2 h3 h4, of example_request]
  note t1 = t [THEN conjunct1]
  note t2 = t [THEN conjunct2, THEN conjunct1, THEN mp, OF h5]
  from h1 h2 h3 h4 h5 t1 t2 show ?thesis by blast
qed

text \<open>
  C1. The record of \<open>example_world\<close> is active and expires at instant 1000. A redirect at
  instant 500 succeeds and fills the cache, whose entry lives until 3600500. A second
  redirect at instant 2000, after the record has expired, is answered from the cache with
  the original URL, while the record with its past \<^verbatim>\<open>expiresAt\<close> is still in the store;
  without the cache entry the same request fails.
\<close>

theorem expired_link_served_from_cache:
  "findByShortCode ''promo1'' (urls example_world) = Some example_url
   \<and> expiresAt example_url = Some 1000
   \<and> fst (redirectUrl example_request 500 example_world) =
        Inr (Redirect 301 ''https://example.com'')
   \<and> map_of (cache (urlCache (snd (redirectUrl example_request 500 example_world)))) ''promo1'' =
        Some \<lparr>data = example_data, entry_expiresAt = 3600500, hits = 1, lastAccess = 500\<rparr>
   \<and> map expiresAt (urls (snd (redirectUrl example_request 500 example_world))) = [Some 1000]
   \<and> fst (getByShortCode ''promo1'' 2000 (snd (redirectUrl example_request 500 example_world))) =
        Inr example_data
   \<and> fst (redirectUrl example_request 2000 (snd (redirectUrl example_request 500 example_world))) =
        Inr (Redirect 301 ''https://example.com'')
   \<and> fst (redirectUrl example_request 2000 example_world) =
        Inl (AppError ''URL has expired'' 404 ''NOT_FOUND'')"
  by (simp add: redirectUrl_def getByShortCode_def get_def set_cache_def findByShortCode_def
        findOne_shortCode_def recordClick_def url_recordClick_def save_def
        urlData_expiresAt_def truthy_def or_null_def notFound_def Let_def
        example_world_def example_url_def example_request_def example_data_def
        new_UrlCache_def default_config_def)

end
